theory Spec2Isabelle
  imports Main
begin

section \<open>The grid service\<close>

text \<open>
  The module \<^verbatim>\<open>h3_boundary_utils.py\<close> calls five functions of the \<^verbatim>\<open>h3\<close> library and knows
  nothing else about a cell. The library is a parameter of the model: a record with one
  field per function, over an opaque cell type \<open>'c\<close>. The module passes computed
  resolutions to the library: to \<^verbatim>\<open>cell_to_parent\<close> and \<^verbatim>\<open>cell_to_child_pos\<close> only
  resolutions from 0 up to that of the cell, which the library accepts for every cell, and
  to \<^verbatim>\<open>cell_to_children\<close> a resolution that grows with the descent and that the library
  refuses beyond its finest one, 15. So \<open>cell_to_children\<close> returns \<open>None\<close> where the library
  raises \<^verbatim>\<open>H3ResDomainError\<close>.
\<close>

record 'c grid =
  get_resolution :: "'c \<Rightarrow> int"
  is_pentagon :: "'c \<Rightarrow> bool"
  cell_to_parent :: "'c \<Rightarrow> int \<Rightarrow> 'c"
  cell_to_child_pos :: "'c \<Rightarrow> int \<Rightarrow> int"
  cell_to_children :: "'c \<Rightarrow> int \<Rightarrow> 'c list option"

text \<open>
  \<open>ValueError\<close> is the exception the module raises itself, \<open>H3ResDomainError\<close> the one
  the library raises on a resolution it does not have, and \<open>KeyError\<close> the one a dictionary
  subscript raises on a missing key. \<open>RecursionError\<close> stands for a descent of
  \<^verbatim>\<open>_children_by_face\<close> started below its target resolution, where the test
  \<^verbatim>\<open>res == target_res\<close> can never succeed.
\<close>

datatype error = ValueError | H3ResDomainError | KeyError | RecursionError


section \<open>The face-mapping tables\<close>

text \<open>
  The four module-level dictionaries, as association lists in the order of the source:
  parity, then child position, then face. The inverse tables hold Python sets of faces.
\<close>

type_synonym forward_table = "(int \<times> (int \<times> (int \<times> int) list) list) list"
type_synonym reversed_table = "(int \<times> (int \<times> (int \<times> int set) list) list) list"

definition boundary_face_mapping_hex :: forward_table where
  "boundary_face_mapping_hex =
    [(0, [(0, []),
          (1, [(2, 3), (3, 1), (1, 1)]),
          (2, [(4, 6), (2, 2), (6, 2)]),
          (3, [(6, 2), (2, 3), (3, 3)]),
          (4, [(1, 5), (4, 4), (5, 4)]),
          (5, [(1, 5), (3, 1), (5, 5)]),
          (6, [(4, 6), (5, 4), (6, 6)])]),
     (1, [(0, []),
          (1, [(3, 3), (1, 3), (5, 1)]),
          (2, [(2, 6), (6, 6), (3, 2)]),
          (3, [(2, 2), (1, 3), (3, 2)]),
          (4, [(4, 5), (5, 5), (6, 4)]),
          (5, [(1, 1), (4, 5), (5, 1)]),
          (6, [(4, 4), (2, 6), (6, 4)])])]"

definition reversed_boundary_face_mapping_hex :: reversed_table where
  "reversed_boundary_face_mapping_hex =
    [(0, [(1, [(1, {1, 3}), (3, {2})]),
          (2, [(2, {2, 6}), (6, {4})]),
          (3, [(2, {6}), (3, {2, 3})]),
          (4, [(4, {4, 5}), (5, {1})]),
          (5, [(5, {1, 5}), (1, {3})]),
          (6, [(4, {5}), (6, {4, 6})]),
          (0, [])]),
     (1, [(1, [(3, {1, 3}), (1, {5})]),
          (2, [(6, {2, 6}), (2, {3})]),
          (3, [(2, {2, 3}), (3, {1})]),
          (4, [(5, {4, 5}), (4, {6})]),
          (5, [(1, {1, 5}), (5, {4})]),
          (6, [(4, {4, 6}), (6, {2})]),
          (0, [])])]"

definition boundary_face_mapping_pent :: forward_table where
  "boundary_face_mapping_pent =
    [(0, [(0, []),
          (1, [(4, 5), (2, 1), (6, 1)]),
          (2, [(6, 1), (3, 2), (2, 2)]),
          (3, [(5, 2), (4, 2), (6, 4)]),
          (4, [(3, 2), (5, 4), (1, 2)]),
          (5, [(5, 3), (6, 5), (4, 5)]),
          (6, [])]),
     (1, [(0, []),
          (1, [(2, 5), (6, 5), (3, 1)]),
          (2, [(3, 1), (2, 1), (1, 2)]),
          (3, [(1, 4), (4, 3), (5, 3)]),
          (4, [(1, 2), (5, 2), (4, 4)]),
          (5, [(2, 5), (4, 3), (6, 3)]),
          (6, [])])]"

definition reversed_boundary_face_mapping_pent :: reversed_table where
  "reversed_boundary_face_mapping_pent =
    [(0, [(1, [(1, {2, 6}), (5, {4})]),
          (2, [(1, {6}), (2, {2, 3})]),
          (3, [(4, {1}), (3, {4, 5})]),
          (4, [(4, {5}), (2, {1, 3})]),
          (5, [(5, {4, 6}), (3, {5})]),
          (6, []),
          (0, [])]),
     (1, [(1, [(5, {2, 6}), (1, {3})]),
          (2, [(2, {1}), (1, {2, 3})]),
          (3, [(3, {6}), (4, {4, 5})]),
          (4, [(4, {4}), (2, {1, 5})]),
          (5, [(5, {2}), (3, {4, 6})]),
          (6, []),
          (0, [])])]"

text \<open>The default value of every \<^verbatim>\<open>input_faces\<close> parameter.\<close>

definition all_faces :: "int set" where
  "all_faces = {1, 2, 3, 4, 5, 6}"

section \<open>Tracing a cell upwards\<close>

text \<open>
  The \<^verbatim>\<open>for res in range(h_res, res_parent, -1)\<close> loop of
  \<^verbatim>\<open>trace_cell_to_ancestor_faces\<close>: it runs while \<open>res_parent < res\<close>, each
  \<^verbatim>\<open>return set()\<close> leaves the function, and falling out of the loop returns the faces
  carried so far. The subscript \<^verbatim>\<open>[parity]\<close> raises on a missing key, \<^verbatim>\<open>.get(child_pos, {})\<close>
  does not.
\<close>

function trace_loop :: "'c grid \<Rightarrow> int \<Rightarrow> int \<Rightarrow> 'c \<Rightarrow> int set \<Rightarrow> error + int set" where
  "trace_loop g res_parent res h input_faces =
    (if res \<le> res_parent then Inr input_faces
     else if is_pentagon g h then Inr {}
     else
       let parity = res mod 2;
           child_pos = cell_to_child_pos g h (res - 1);
           parent = cell_to_parent g h (res - 1);
           parent_is_pent = is_pentagon g parent
       in if child_pos = 0 then Inr {}
          else
            (case map_of (if parent_is_pent then boundary_face_mapping_pent
                          else boundary_face_mapping_hex) parity of
               None \<Rightarrow> Inl KeyError
             | Some by_pos \<Rightarrow>
                 let face_map = map_of (case map_of by_pos child_pos of None \<Rightarrow> [] | Some m \<Rightarrow> m);
                     mapped_faces = Option.these (face_map ` input_faces)
                 in if mapped_faces = {} then Inr {}
                    else trace_loop g res_parent (res - 1) parent mapped_faces))"
  by pat_completeness auto
termination
  by (relation "measure (\<lambda>(g, res_parent, res, h, input_faces). nat (res - res_parent))") auto

text \<open>
  \<^verbatim>\<open>trace_cell_to_ancestor_faces(h, input_faces, res_parent)\<close>; \<open>None\<close> is the default
  \<^verbatim>\<open>res_parent=None\<close>.
\<close>

definition trace_cell_to_ancestor_faces ::
  "'c grid \<Rightarrow> 'c \<Rightarrow> int set \<Rightarrow> int option \<Rightarrow> error + int set" where
  "trace_cell_to_ancestor_faces g h input_faces res_parent_arg =
    (let h_res = get_resolution g h;
         res_parent = (case res_parent_arg of None \<Rightarrow> h_res - 1 | Some r \<Rightarrow> r)
     in if res_parent \<ge> h_res then Inl ValueError
        else if res_parent < 0 then Inl ValueError
        else if input_faces = {} then Inr {}
        else trace_loop g res_parent h_res h input_faces)"

definition trace_cell_to_parent_faces :: "'c grid \<Rightarrow> 'c \<Rightarrow> int set \<Rightarrow> error + int set" where
  "trace_cell_to_parent_faces g h input_faces =
    (let parent_res = get_resolution g h - 1
     in trace_cell_to_ancestor_faces g h input_faces (Some parent_res))"

section \<open>The coarsest ancestor\<close>

text \<open>The \<^verbatim>\<open>while res > 0\<close> loop of \<^verbatim>\<open>cell_to_coarsest_ancestor_on_faces\<close>.\<close>

function coarsest_loop :: "'c grid \<Rightarrow> 'c \<Rightarrow> int set \<Rightarrow> int \<Rightarrow> error + 'c" where
  "coarsest_loop g h input_faces res =
    (if res > 0 then
       let parent_res = res - 1
       in (case trace_cell_to_ancestor_faces g h input_faces (Some parent_res) of
             Inl e \<Rightarrow> Inl e
           | Inr boundary_faces \<Rightarrow>
               if boundary_faces = {} then Inr h
               else coarsest_loop g (cell_to_parent g h parent_res) boundary_faces parent_res)
     else Inr h)"
  by pat_completeness auto
termination
  by (relation "measure (\<lambda>(g, h, input_faces, res). nat res)") auto

definition cell_to_coarsest_ancestor_on_faces :: "'c grid \<Rightarrow> 'c \<Rightarrow> int set \<Rightarrow> error + 'c" where
  "cell_to_coarsest_ancestor_on_faces g h input_faces =
    coarsest_loop g h input_faces (get_resolution g h)"

section \<open>Expanding a cell downwards\<close>

text \<open>
  The inner \<^verbatim>\<open>for parent_face in faces\<close> loop: the subscript \<^verbatim>\<open>reverse_mapping[child_pos]\<close>
  is evaluated once per face, so it raises only when there is a face to look at; the
  subscript \<^verbatim>\<open>[parent_face]\<close> is guarded by the membership test.
\<close>

definition mapped_child_faces ::
  "(int \<times> (int \<times> int set) list) list \<Rightarrow> int \<Rightarrow> int set \<Rightarrow> error + int set" where
  "mapped_child_faces reverse_mapping child_pos faces =
    (if faces = {} then Inr {}
     else (case map_of reverse_mapping child_pos of
             None \<Rightarrow> Inl KeyError
           | Some by_face \<Rightarrow>
               Inr (\<Union>parent_face \<in> faces.
                      case map_of by_face parent_face of None \<Rightarrow> {} | Some s \<Rightarrow> s)))"

text \<open>
  \<^verbatim>\<open>result.extend(...)\<close> over the children in order: the first exception ends the loop.
\<close>

fun extend_all :: "(error + 'a list) list \<Rightarrow> error + 'a list" where
  "extend_all [] = Inr []"
| "extend_all (r # rs) =
    (case r of
       Inl e \<Rightarrow> Inl e
     | Inr xs \<Rightarrow> (case extend_all rs of Inl e \<Rightarrow> Inl e | Inr ys \<Rightarrow> Inr (xs @ ys)))"

text \<open>
  The closure \<^verbatim>\<open>_children_by_face(current, res, faces)\<close>, with the \<^verbatim>\<open>target_res\<close> it
  captures as a parameter. \<^verbatim>\<open>children_on_boundary_faces\<close> enters it with
  \<open>res \<le> target_res\<close> and every recursive call keeps that; the branch
  \<open>target_res < res\<close> is the descent that would never meet \<^verbatim>\<open>res == target_res\<close>.
  The table is subscripted by the parity before the library is asked for the children,
  and an exception of the library ends the call.
\<close>

function children_by_face ::
  "'c grid \<Rightarrow> int \<Rightarrow> 'c \<Rightarrow> int \<Rightarrow> int set \<Rightarrow> error + 'c list" where
  "children_by_face g target_res current res faces =
    (if res = target_res then Inr [current]
     else if target_res < res then Inl RecursionError
     else
       let parity = (res + 1) mod 2;
           is_pent = is_pentagon g current
       in (case map_of (if is_pent then reversed_boundary_face_mapping_pent
                        else reversed_boundary_face_mapping_hex) parity of
             None \<Rightarrow> Inl KeyError
           | Some reverse_mapping \<Rightarrow>
               (case cell_to_children g current (res + 1) of
                  None \<Rightarrow> Inl H3ResDomainError
                | Some children \<Rightarrow>
                    extend_all
                      (map (\<lambda>child.
                              case mapped_child_faces reverse_mapping
                                     (cell_to_child_pos g child res) faces of
                                Inl e \<Rightarrow> Inl e
                              | Inr mapped_faces \<Rightarrow>
                                  if mapped_faces \<noteq> {}
                                  then children_by_face g target_res child (res + 1) mapped_faces
                                  else Inr [])
                           children))))"
  by pat_completeness auto
termination
  by (relation "measure (\<lambda>(g, target_res, current, res, faces). nat (target_res - res))") auto

definition children_on_boundary_faces ::
  "'c grid \<Rightarrow> 'c \<Rightarrow> int \<Rightarrow> int set \<Rightarrow> error + 'c list" where
  "children_on_boundary_faces g parent target_res input_faces =
    (let res_parent = get_resolution g parent
     in if target_res < res_parent then Inl ValueError
        else children_by_face g target_res parent res_parent input_faces)"

section \<open>Reading the tables\<close>

text \<open>
  The pair \<open>child_face \<mapsto> parent_face\<close> is in the forward table of a shape, parity and
  child position when \<open>forward_entry\<close> returns \<open>Some parent_face\<close>; the inverse table has
  \<open>parent_face \<mapsto> s\<close> when \<open>inverse_entry\<close> returns \<open>Some s\<close>. \<open>position_entry\<close> is the
  double subscript \<^verbatim>\<open>table[parity][child_pos]\<close>, \<open>None\<close> where Python raises.
\<close>

definition position_entry :: "(int \<times> (int \<times> 'a) list) list \<Rightarrow> int \<Rightarrow> int \<Rightarrow> 'a option" where
  "position_entry table parity child_pos =
    (case map_of table parity of None \<Rightarrow> None | Some by_pos \<Rightarrow> map_of by_pos child_pos)"

definition forward_entry :: "bool \<Rightarrow> int \<Rightarrow> int \<Rightarrow> int \<Rightarrow> int option" where
  "forward_entry pent parity child_pos child_face =
    (case position_entry (if pent then boundary_face_mapping_pent
                          else boundary_face_mapping_hex) parity child_pos of
       None \<Rightarrow> None
     | Some m \<Rightarrow> map_of m child_face)"

definition inverse_entry :: "bool \<Rightarrow> int \<Rightarrow> int \<Rightarrow> int \<Rightarrow> int set option" where
  "inverse_entry pent parity child_pos parent_face =
    (case position_entry (if pent then reversed_boundary_face_mapping_pent
                          else reversed_boundary_face_mapping_hex) parity child_pos of
       None \<Rightarrow> None
     | Some m \<Rightarrow> map_of m parent_face)"

section \<open>What the module expects of the grid service\<close>

text \<open>
  A parent asked for at a resolution has that resolution, and parents compose.
\<close>

definition hierarchy :: "'c grid \<Rightarrow> bool" where
  "hierarchy g \<longleftrightarrow>
    (\<forall>h r. 0 \<le> r \<and> r \<le> get_resolution g h \<longrightarrow> get_resolution g (cell_to_parent g h r) = r) \<and>
    (\<forall>h r r'. 0 \<le> r' \<and> r' \<le> r \<and> r \<le> get_resolution g h \<longrightarrow>
       cell_to_parent g (cell_to_parent g h r) r' = cell_to_parent g h r')"

text \<open>A child one level down sits at one of the seven positions of its parent.\<close>

definition child_positions_in_range :: "'c grid \<Rightarrow> bool" where
  "child_positions_in_range g \<longleftrightarrow>
    (\<forall>h r children. cell_to_children g h (r + 1) = Some children \<longrightarrow>
       (\<forall>c \<in> set children. 0 \<le> cell_to_child_pos g c r \<and> cell_to_child_pos g c r \<le> 6))"


text \<open>
  A set of hexagons closed under taking children, each child one level finer than its
  parent and pointing back to it.
\<close>

definition hex_region :: "'c grid \<Rightarrow> 'c set \<Rightarrow> bool" where
  "hex_region g S \<longleftrightarrow>
    (\<forall>h \<in> S. \<not> is_pentagon g h \<and>
       (\<forall>children. cell_to_children g h (get_resolution g h + 1) = Some children \<longrightarrow>
          (\<forall>c \<in> set children.
             c \<in> S \<and> get_resolution g c = get_resolution g h + 1 \<and>
             cell_to_parent g c (get_resolution g h) = h)))"

text \<open>
  The cell the loop of \<open>trace_loop\<close> holds when it has come down from \<open>res\<close> to \<open>mid\<close>
  without returning: the parent taken one level at a time.
\<close>

function climb :: "'c grid \<Rightarrow> int \<Rightarrow> int \<Rightarrow> 'c \<Rightarrow> 'c" where
  "climb g mid res h =
    (if res \<le> mid then h else climb g mid (res - 1) (cell_to_parent g h (res - 1)))"
  by pat_completeness auto
termination
  by (relation "measure (\<lambda>(g, mid, res, h). nat (res - mid))") auto

section \<open>A grid of hexagons\<close>

text \<open>
  A grid service to run the module on: a cell is the list of the child positions that
  lead to it from a hexagonal base cell, as the digits of an H3 index do. Its resolution
  is the number of digits, its parent a prefix, and its children one level down are its
  seven extensions; the module asks for children at no other resolution. As in the
  library, there are no children beyond resolution 15.
\<close>

definition digit_grid :: "int list grid" where
  "digit_grid =
    \<lparr> get_resolution = (\<lambda>h. int (length h)),
      is_pentagon = (\<lambda>h. False),
      cell_to_parent = (\<lambda>h r. take (nat r) h),
      cell_to_child_pos = (\<lambda>h r. foldl (\<lambda>a d. a * 7 + d) 0 (drop (nat r) h)),
      cell_to_children =
        (\<lambda>h r. if 15 < r then None
                else if r = int (length h) + 1
                then Some (map (\<lambda>d. h @ [d]) [0, 1, 2, 3, 4, 5, 6])
                else Some []) \<rparr>"

section \<open>The loops, one step at a time\<close>

declare trace_loop.simps [simp del] children_by_face.simps [simp del] coarsest_loop.simps [simp del] climb.simps [simp del]

lemma parity_cases: "(r::int) mod 2 = 0 \<or> r mod 2 = 1"
  by presburger

lemma forward_parity_lookup:
  "\<exists>by_pos. map_of (if pent then boundary_face_mapping_pent else boundary_face_mapping_hex) (r mod 2) = Some by_pos"
  using parity_cases [of r]
  by (auto simp: boundary_face_mapping_pent_def boundary_face_mapping_hex_def)

lemma reversed_parity_lookup:
  "\<exists>by_pos. map_of (if pent then reversed_boundary_face_mapping_pent else reversed_boundary_face_mapping_hex) (r mod 2) = Some by_pos"
  using parity_cases [of r]
  by (auto simp: reversed_boundary_face_mapping_pent_def reversed_boundary_face_mapping_hex_def)

lemma forward_entry_lookup:
  assumes "map_of (if pent then boundary_face_mapping_pent else boundary_face_mapping_hex) parity = Some by_pos"
  shows "map_of (case map_of by_pos pos of None \<Rightarrow> [] | Some m \<Rightarrow> m) = forward_entry pent parity pos"
  using assms by (auto simp: forward_entry_def position_entry_def fun_eq_iff split: option.splits)

lemma trace_loop_step:
  "trace_loop g res_parent res h F =
    (if res \<le> res_parent then Inr F
     else if is_pentagon g h then Inr {}
     else if cell_to_child_pos g h (res - 1) = 0 then Inr {}
     else if Option.these (forward_entry (is_pentagon g (cell_to_parent g h (res - 1))) (res mod 2)
                 (cell_to_child_pos g h (res - 1)) ` F) = {} then Inr {}
     else trace_loop g res_parent (res - 1) (cell_to_parent g h (res - 1))
            (Option.these (forward_entry (is_pentagon g (cell_to_parent g h (res - 1))) (res mod 2)
                 (cell_to_child_pos g h (res - 1)) ` F)))"
proof -
  obtain by_pos where bp: "map_of (if is_pentagon g (cell_to_parent g h (res - 1))
        then boundary_face_mapping_pent else boundary_face_mapping_hex) (res mod 2) = Some by_pos"
    using forward_parity_lookup by blast
  show ?thesis
    by (subst trace_loop.simps) (simp add: Let_def bp forward_entry_lookup [OF bp])
qed

lemma trace_loop_total: "\<exists>T. trace_loop g res_parent res h F = Inr T"
proof (induction "nat (res - res_parent)" arbitrary: res h F)
  case 0
  then show ?case by (simp add: trace_loop_step)
next
  case (Suc n)
  then have "n = nat ((res - 1) - res_parent)" by simp
  from Suc.hyps(1) [OF this] show ?case
    by (subst trace_loop_step) simp
qed

lemma trace_loop_empty: "trace_loop g res_parent res h {} = Inr {}"
  by (subst trace_loop_step) simp

lemma these_image_mono: "F \<subseteq> F' \<Longrightarrow> Option.these (m ` F) \<subseteq> Option.these (m ` F')"
  unfolding Option.these_def by blast

lemma climb_same: "climb g mid mid h = h"
  by (subst climb.simps) simp

lemma trace_loop_mono:
  "F \<subseteq> F' \<Longrightarrow> trace_loop g res_parent res h F = Inr T \<Longrightarrow>
   trace_loop g res_parent res h F' = Inr T' \<Longrightarrow> T \<subseteq> T'"
proof (induction "nat (res - res_parent)" arbitrary: res h F F' T T')
  case 0
  then show ?case by (simp add: trace_loop_step)
next
  case (Suc n)
  let ?m = "forward_entry (is_pentagon g (cell_to_parent g h (res - 1))) (res mod 2)
              (cell_to_child_pos g h (res - 1))"
  have n: "n = nat ((res - 1) - res_parent)" and gt: "\<not> res \<le> res_parent"
    using Suc.hyps(2) by simp_all
  have sub: "Option.these (?m ` F) \<subseteq> Option.these (?m ` F')"
    using Suc.prems(1) by (rule these_image_mono)
  show ?case
  proof (cases "is_pentagon g h \<or> cell_to_child_pos g h (res - 1) = 0 \<or> Option.these (?m ` F) = {}")
    case True
    with Suc.prems(2) gt have "T = {}"
      by (subst (asm) trace_loop_step) (auto split: if_splits)
    then show ?thesis by simp
  next
    case False
    with sub have ne: "Option.these (?m ` F') \<noteq> {}" by auto
    from False Suc.prems(2) gt
    have a: "trace_loop g res_parent (res - 1) (cell_to_parent g h (res - 1)) (Option.these (?m ` F)) = Inr T"
      by (subst (asm) trace_loop_step) simp
    from False ne Suc.prems(3) gt
    have b: "trace_loop g res_parent (res - 1) (cell_to_parent g h (res - 1)) (Option.these (?m ` F')) = Inr T'"
      by (subst (asm) trace_loop_step) simp
    from Suc.hyps(1) [OF n sub a b] show ?thesis .
  qed
qed

lemma trace_loop_compose:
  "res_parent \<le> mid \<Longrightarrow> mid \<le> res \<Longrightarrow> trace_loop g mid res h F = Inr G \<Longrightarrow>
   trace_loop g res_parent res h F = trace_loop g res_parent mid (climb g mid res h) G"
proof (induction "nat (res - mid)" arbitrary: res h F)
  case 0
  then have "res = mid" by simp
  with 0 show ?case
    by (simp add: trace_loop_step [of g mid mid] climb_same)
next
  case (Suc n)
  let ?m = "forward_entry (is_pentagon g (cell_to_parent g h (res - 1))) (res mod 2)
              (cell_to_child_pos g h (res - 1))"
  have n: "n = nat ((res - 1) - mid)" and gt: "\<not> res \<le> mid" "\<not> res \<le> res_parent" "mid \<le> res - 1"
    using Suc.hyps(2) Suc.prems(1) by simp_all
  show ?case
  proof (cases "is_pentagon g h \<or> cell_to_child_pos g h (res - 1) = 0 \<or> Option.these (?m ` F) = {}")
    case True
    with Suc.prems(3) gt have "G = {}"
      by (subst (asm) trace_loop_step) (auto split: if_splits)
    moreover from True gt have "trace_loop g res_parent res h F = Inr {}"
      by (subst trace_loop_step) auto
    ultimately show ?thesis by (simp add: trace_loop_empty)
  next
    case False
    from False Suc.prems(3) gt
    have a: "trace_loop g mid (res - 1) (cell_to_parent g h (res - 1)) (Option.these (?m ` F)) = Inr G"
      by (subst (asm) trace_loop_step) simp
    from False gt
    have b: "trace_loop g res_parent res h F =
       trace_loop g res_parent (res - 1) (cell_to_parent g h (res - 1)) (Option.these (?m ` F))"
      by (subst trace_loop_step) simp
    have c: "climb g mid res h = climb g mid (res - 1) (cell_to_parent g h (res - 1))"
      using gt by (subst climb.simps) simp
    from Suc.hyps(1) [OF n Suc.prems(1) gt(3) a] b c show ?thesis by simp
  qed
qed

lemma climb_parent:
  "hierarchy g \<Longrightarrow> 0 \<le> mid \<Longrightarrow> mid < res \<Longrightarrow> get_resolution g h = res \<Longrightarrow>
   climb g mid res h = cell_to_parent g h mid"
proof (induction "nat (res - mid)" arbitrary: res h)
  case 0
  then show ?case by simp
next
  case (Suc n)
  let ?p = "cell_to_parent g h (res - 1)"
  have r: "get_resolution g ?p = res - 1"
    using Suc.prems by (simp add: hierarchy_def)
  have c: "climb g mid res h = climb g mid (res - 1) ?p"
    using Suc.prems by (subst climb.simps) simp
  show ?case
  proof (cases "mid = res - 1")
    case True
    then show ?thesis using c by (simp add: climb_same)
  next
    case False
    then have lt: "mid < res - 1" using Suc.prems by simp
    have n: "n = nat ((res - 1) - mid)" using Suc.hyps(2) by simp
    have "cell_to_parent g ?p mid = cell_to_parent g h mid"
      using Suc.prems lt by (simp add: hierarchy_def)
    with Suc.hyps(1) [OF n Suc.prems(1,2) lt r] c show ?thesis by simp
  qed
qed

lemma trace_ancestor_valid:
  "0 \<le> rp \<Longrightarrow> rp < get_resolution g h \<Longrightarrow>
   trace_cell_to_ancestor_faces g h F (Some rp) = trace_loop g rp (get_resolution g h) h F"
  by (simp add: trace_cell_to_ancestor_faces_def trace_loop_empty)

lemma trace_via_ancestor:
  assumes "hierarchy g" "0 \<le> t2" "t2 < t1" "t1 < get_resolution g c"
    and t1: "trace_cell_to_ancestor_faces g c F (Some t1) = Inr G"
  shows "trace_cell_to_ancestor_faces g c F (Some t2) =
         trace_cell_to_ancestor_faces g (cell_to_parent g c t1) G (Some t2)"
proof -
  let ?R = "get_resolution g c"
  have r: "get_resolution g (cell_to_parent g c t1) = t1"
    using assms(1-4) by (simp add: hierarchy_def)
  have "trace_loop g t1 ?R c F = Inr G"
    using t1 assms(2-4) by (simp add: trace_ancestor_valid)
  then have "trace_loop g t2 ?R c F = trace_loop g t2 t1 (climb g t1 ?R c) G"
    using assms(2-4) by (intro trace_loop_compose) simp_all
  also have "climb g t1 ?R c = cell_to_parent g c t1"
    using assms(1-4) by (intro climb_parent) simp_all
  finally show ?thesis
    using assms(2-4) r by (simp add: trace_ancestor_valid)
qed

lemma coarsest_loop_fixed:
  assumes "hierarchy g"
  shows "get_resolution g h = res \<Longrightarrow>
    \<exists>a. coarsest_loop g h F res = Inr a \<and>
      (a = h \<or>
       (\<exists>G. 0 \<le> get_resolution g a \<and> get_resolution g a < res \<and>
            trace_cell_to_ancestor_faces g h F (Some (get_resolution g a)) = Inr G \<and>
            G \<noteq> {} \<and> coarsest_loop g a G (get_resolution g a) = Inr a))"
proof (induction "nat res" arbitrary: res h F)
  case 0
  then show ?case by (subst coarsest_loop.simps) simp
next
  case (Suc n)
  then have pos: "0 < res" and n: "n = nat (res - 1)" by simp_all
  let ?p = "cell_to_parent g h (res - 1)"
  obtain bf where bf: "trace_cell_to_ancestor_faces g h F (Some (res - 1)) = Inr bf"
    using trace_loop_total [of g "res - 1" res h F] pos Suc.prems
    by (auto simp: trace_ancestor_valid)
  show ?case
  proof (cases "bf = {}")
    case True
    with bf pos show ?thesis by (subst coarsest_loop.simps) (simp add: Let_def)
  next
    case False
    have rp: "get_resolution g ?p = res - 1"
      using assms pos Suc.prems by (simp add: hierarchy_def)
    have unfold: "coarsest_loop g h F res = coarsest_loop g ?p bf (res - 1)"
      using bf pos False by (subst coarsest_loop.simps) (simp add: Let_def)
    from Suc.hyps(1) [OF n rp, of bf] obtain a where
      a: "coarsest_loop g ?p bf (res - 1) = Inr a" and
      alt: "a = ?p \<or>
       (\<exists>G. 0 \<le> get_resolution g a \<and> get_resolution g a < res - 1 \<and>
            trace_cell_to_ancestor_faces g ?p bf (Some (get_resolution g a)) = Inr G \<and>
            G \<noteq> {} \<and> coarsest_loop g a G (get_resolution g a) = Inr a)"
      by blast
    from alt show ?thesis
    proof
      assume "a = ?p"
      with a rp bf False pos unfold show ?thesis by auto
    next
      assume "\<exists>G. 0 \<le> get_resolution g a \<and> get_resolution g a < res - 1 \<and>
            trace_cell_to_ancestor_faces g ?p bf (Some (get_resolution g a)) = Inr G \<and>
            G \<noteq> {} \<and> coarsest_loop g a G (get_resolution g a) = Inr a"
      then obtain G where G: "0 \<le> get_resolution g a" "get_resolution g a < res - 1"
          "trace_cell_to_ancestor_faces g ?p bf (Some (get_resolution g a)) = Inr G"
          "G \<noteq> {}" "coarsest_loop g a G (get_resolution g a) = Inr a"
        by blast
      have "trace_cell_to_ancestor_faces g h F (Some (get_resolution g a)) =
            trace_cell_to_ancestor_faces g ?p bf (Some (get_resolution g a))"
        using assms G(1,2) Suc.prems bf by (intro trace_via_ancestor) simp_all
      with G a unfold show ?thesis by auto
    qed
  qed
qed

section \<open>The tables and the descent\<close>

lemma hex_tables_agree:
  "forward_entry False parity pos cf = Some pf \<longleftrightarrow>
   (\<exists>s. inverse_entry False parity pos pf = Some s \<and> cf \<in> s)"
  unfolding forward_entry_def inverse_entry_def position_entry_def boundary_face_mapping_hex_def
    reversed_boundary_face_mapping_hex_def
  by (auto split: if_splits)

lemma inverse_entry_faces: "inverse_entry pent parity pos pf = Some s \<Longrightarrow> s \<subseteq> all_faces"
  unfolding inverse_entry_def position_entry_def reversed_boundary_face_mapping_hex_def
    reversed_boundary_face_mapping_pent_def all_faces_def
  by (auto split: if_splits)

lemma inverse_entry_center: "inverse_entry pent parity 0 pf = None"
  unfolding inverse_entry_def position_entry_def reversed_boundary_face_mapping_hex_def
    reversed_boundary_face_mapping_pent_def
  by (auto split: if_splits)

lemma inverse_position_total:
  "parity = 0 \<or> parity = 1 \<Longrightarrow> 0 \<le> pos \<Longrightarrow> pos \<le> 6 \<Longrightarrow>
   \<exists>m. position_entry (if pent then reversed_boundary_face_mapping_pent
                        else reversed_boundary_face_mapping_hex) parity pos = Some m"
  unfolding position_entry_def reversed_boundary_face_mapping_hex_def
    reversed_boundary_face_mapping_pent_def
  by (auto split: if_splits)

lemma mapped_child_faces_error: "mapped_child_faces rm pos faces = Inl e \<Longrightarrow> e = KeyError"
  by (auto simp: mapped_child_faces_def split: if_splits option.splits)

lemma mapped_child_faces_total:
  assumes "map_of (if pent then reversed_boundary_face_mapping_pent
                   else reversed_boundary_face_mapping_hex) parity = Some rm"
    and "parity = 0 \<or> parity = 1" "0 \<le> pos" "pos \<le> 6"
  shows "\<exists>M. mapped_child_faces rm pos faces = Inr M"
  using inverse_position_total [OF assms(2-4), of pent] assms(1)
  by (auto simp: mapped_child_faces_def position_entry_def)

lemma mapped_child_faces_elem:
  assumes "map_of (if pent then reversed_boundary_face_mapping_pent
                   else reversed_boundary_face_mapping_hex) parity = Some rm"
    and "mapped_child_faces rm pos faces = Inr M" "f \<in> M"
  shows "\<exists>pf \<in> faces. \<exists>s. inverse_entry pent parity pos pf = Some s \<and> f \<in> s"
  using assms
  by (auto simp: mapped_child_faces_def inverse_entry_def position_entry_def
           split: if_splits option.splits)

lemma extend_all_elem:
  "extend_all (map f cs) = Inr xs \<Longrightarrow> x \<in> set xs \<Longrightarrow>
   \<exists>ch \<in> set cs. \<exists>ys. f ch = Inr ys \<and> x \<in> set ys"
  by (induction cs arbitrary: xs) (auto split: sum.splits)

lemma extend_all_error:
  "extend_all (map f cs) = Inl e \<Longrightarrow> \<exists>ch \<in> set cs. f ch = Inl e"
  by (induction cs) (auto split: sum.splits)


lemma children_by_face_step:
  assumes "res < target_res"
    and "map_of (if is_pentagon g current then reversed_boundary_face_mapping_pent
                 else reversed_boundary_face_mapping_hex) ((res + 1) mod 2) = Some rm"
    and "cell_to_children g current (res + 1) = Some cs"
  shows "children_by_face g target_res current res faces =
    extend_all
      (map (\<lambda>child.
              case mapped_child_faces rm (cell_to_child_pos g child res) faces of
                Inl e \<Rightarrow> Inl e
              | Inr mapped_faces \<Rightarrow>
                  if mapped_faces \<noteq> {}
                  then children_by_face g target_res child (res + 1) mapped_faces
                  else Inr [])
           cs)"
  using assms by (subst children_by_face.simps) (simp add: Let_def)

lemma children_by_face_refused:
  assumes "res < target_res" and "cell_to_children g current (res + 1) = None"
  shows "children_by_face g target_res current res faces = Inl H3ResDomainError"
proof -
  obtain rm where "map_of (if is_pentagon g current then reversed_boundary_face_mapping_pent
                 else reversed_boundary_face_mapping_hex) ((res + 1) mod 2) = Some rm"
    using reversed_parity_lookup by blast
  with assms show ?thesis
    by (subst children_by_face.simps) (simp add: Let_def)
qed

lemma children_by_face_error:
  "res \<le> target_res \<Longrightarrow> children_by_face g target_res current res faces = Inl e \<Longrightarrow>
   res < target_res \<and> (e = KeyError \<or> e = H3ResDomainError)"
proof (induction "nat (target_res - res)" arbitrary: res current faces)
  case 0
  then show ?case by (subst (asm) children_by_face.simps) simp
next
  case (Suc n)
  then have lt: "res < target_res" and n: "n = nat (target_res - (res + 1))" by simp_all
  obtain rm where rm: "map_of (if is_pentagon g current then reversed_boundary_face_mapping_pent
                 else reversed_boundary_face_mapping_hex) ((res + 1) mod 2) = Some rm"
    using reversed_parity_lookup by blast
  show ?case
  proof (cases "cell_to_children g current (res + 1)")
    case None
    with Suc.prems(2) lt show ?thesis by (simp add: children_by_face_refused)
  next
    case (Some cs)
    from Suc.prems(2) obtain ch where
      ch: "(case mapped_child_faces rm (cell_to_child_pos g ch res) faces of
              Inl e \<Rightarrow> Inl e
            | Inr mapped_faces \<Rightarrow>
                if mapped_faces \<noteq> {}
                then children_by_face g target_res ch (res + 1) mapped_faces
                else Inr []) = Inl e"
      unfolding children_by_face_step [OF lt rm Some] by (blast dest: extend_all_error)
    show ?thesis
    proof (cases "mapped_child_faces rm (cell_to_child_pos g ch res) faces")
      case (Inl e')
      with ch lt show ?thesis by (auto dest: mapped_child_faces_error)
    next
      case (Inr M)
      with ch have "children_by_face g target_res ch (res + 1) M = Inl e"
        by (auto split: if_splits)
      with Suc.hyps(1) [OF n] lt show ?thesis by simp
    qed
  qed
qed

lemma children_by_face_no_key_error:
  assumes "child_positions_in_range g"
  shows "res \<le> target_res \<Longrightarrow> children_by_face g target_res current res faces \<noteq> Inl KeyError"
proof (induction "nat (target_res - res)" arbitrary: res current faces)
  case 0
  then show ?case by (subst children_by_face.simps) simp
next
  case (Suc n)
  then have lt: "res < target_res" and n: "n = nat (target_res - (res + 1))" by simp_all
  obtain rm where rm: "map_of (if is_pentagon g current then reversed_boundary_face_mapping_pent
                 else reversed_boundary_face_mapping_hex) ((res + 1) mod 2) = Some rm"
    using reversed_parity_lookup by blast
  show ?case
  proof (cases "cell_to_children g current (res + 1)")
    case None
    with lt show ?thesis by (simp add: children_by_face_refused)
  next
    case (Some cs)
    show ?thesis
    proof
      assume "children_by_face g target_res current res faces = Inl KeyError"
      then obtain ch where chs: "ch \<in> set cs" and
        ch: "(case mapped_child_faces rm (cell_to_child_pos g ch res) faces of
                Inl e \<Rightarrow> Inl e
              | Inr mapped_faces \<Rightarrow>
                  if mapped_faces \<noteq> {}
                  then children_by_face g target_res ch (res + 1) mapped_faces
                  else Inr []) = Inl KeyError"
        unfolding children_by_face_step [OF lt rm Some] by (blast dest: extend_all_error)
      from chs Some assms have "0 \<le> cell_to_child_pos g ch res" "cell_to_child_pos g ch res \<le> 6"
        by (auto simp: child_positions_in_range_def)
      from mapped_child_faces_total [OF rm parity_cases this]
      obtain M where M: "mapped_child_faces rm (cell_to_child_pos g ch res) faces = Inr M"
        by blast
      with ch have "children_by_face g target_res ch (res + 1) M = Inl KeyError"
        by (auto split: if_splits)
      with Suc.hyps(1) [OF n, of ch M] lt show False by simp
    qed
  qed
qed


section \<open>The grid of hexagons is a grid\<close>

lemma hierarchy_digit_grid: "hierarchy digit_grid"
  by (auto simp: hierarchy_def digit_grid_def min_def)

lemma child_positions_digit_grid: "child_positions_in_range digit_grid"
  by (auto simp: child_positions_in_range_def digit_grid_def)

lemma hex_region_digit_grid: "hex_region digit_grid UNIV"
  by (auto simp: hex_region_def digit_grid_def)

lemmas digit_eval =
  trace_cell_to_ancestor_faces_def children_on_boundary_faces_def digit_grid_def
  mapped_child_faces_def boundary_face_mapping_hex_def reversed_boundary_face_mapping_hex_def
  all_faces_def Let_def trace_loop.simps children_by_face.simps coarsest_loop.simps
  cell_to_coarsest_ancestor_on_faces_def

section \<open>Down by the inverse tables, up by the forward tables\<close>

lemma climb_last:
  "mid < res \<Longrightarrow> climb g mid res h = cell_to_parent g (climb g (mid + 1) res h) mid"
proof (induction "nat (res - mid)" arbitrary: res h)
  case 0
  then show ?case by simp
next
  case (Suc n)
  show ?case
  proof (cases "res = mid + 1")
    case True
    then show ?thesis
      by (subst climb.simps) (simp add: climb_same)
  next
    case False
    with Suc.prems have lt: "mid < res - 1" by simp
    have n: "n = nat ((res - 1) - mid)" using Suc.hyps(2) by simp
    have a: "climb g mid res h = climb g mid (res - 1) (cell_to_parent g h (res - 1))"
      using Suc.prems by (subst climb.simps) simp
    have b: "climb g (mid + 1) res h = climb g (mid + 1) (res - 1) (cell_to_parent g h (res - 1))"
      using lt by (subst climb.simps) simp
    from Suc.hyps(1) [OF n lt] a b show ?thesis by simp
  qed
qed

lemma hex_region_child:
  "hex_region g S \<Longrightarrow> h \<in> S \<Longrightarrow>
   cell_to_children g h (get_resolution g h + 1) = Some cs \<Longrightarrow> ch \<in> set cs \<Longrightarrow>
   ch \<in> S \<and> get_resolution g ch = get_resolution g h + 1 \<and>
   cell_to_parent g ch (get_resolution g h) = h \<and> \<not> is_pentagon g ch"
  unfolding hex_region_def by blast

lemma expand_traces_back:
  assumes region: "hex_region g S"
  shows "current \<in> S \<Longrightarrow> get_resolution g current = res \<Longrightarrow> res \<le> target_res \<Longrightarrow>
    (res = target_res \<longrightarrow> faces \<noteq> {}) \<Longrightarrow>
    children_by_face g target_res current res faces = Inr xs \<Longrightarrow> c \<in> set xs \<Longrightarrow>
    get_resolution g c = target_res \<and> climb g res target_res c = current \<and>
    (\<exists>G T. G \<noteq> {} \<and> G \<subseteq> (if res = target_res then faces else all_faces) \<and>
       trace_loop g res target_res c G = Inr T \<and> T \<noteq> {} \<and> T \<subseteq> faces)"
proof (induction "nat (target_res - res)" arbitrary: res current faces xs)
  case 0
  then have eq: "res = target_res" by simp
  have "children_by_face g target_res current target_res faces = Inr [current]"
    by (subst children_by_face.simps) simp
  with 0 eq have "c = current" by auto
  have tr: "trace_loop g target_res target_res current faces = Inr faces"
    by (subst trace_loop_step) simp
  have "faces \<noteq> {} \<and> faces \<subseteq> (if res = target_res then faces else all_faces) \<and>
       trace_loop g res target_res c faces = Inr faces \<and> faces \<noteq> {} \<and> faces \<subseteq> faces"
    using 0(5) eq tr \<open>c = current\<close> by simp
  then have "\<exists>G T. G \<noteq> {} \<and> G \<subseteq> (if res = target_res then faces else all_faces) \<and>
       trace_loop g res target_res c G = Inr T \<and> T \<noteq> {} \<and> T \<subseteq> faces"
    by blast
  with 0(3) eq \<open>c = current\<close> show ?case
    by (simp add: climb_same)
next
  case (Suc n)
  then have lt: "res < target_res" and n: "n = nat (target_res - (res + 1))" by simp_all
  have hex: "\<not> is_pentagon g current"
    using region Suc.prems(1) by (simp add: hex_region_def)
  obtain rm where rm: "map_of (if is_pentagon g current then reversed_boundary_face_mapping_pent
                 else reversed_boundary_face_mapping_hex) ((res + 1) mod 2) = Some rm"
    using reversed_parity_lookup by blast
  let ?pos = "\<lambda>ch. cell_to_child_pos g ch res"
  obtain cs where cs: "cell_to_children g current (res + 1) = Some cs"
    using Suc.prems(5) lt
    by (cases "cell_to_children g current (res + 1)") (simp_all add: children_by_face_refused)
  from Suc.prems(5,6) obtain ch ys where
    ch: "ch \<in> set cs" and
    ys: "(case mapped_child_faces rm (?pos ch) faces of
            Inl e \<Rightarrow> Inl e
          | Inr mapped_faces \<Rightarrow>
              if mapped_faces \<noteq> {}
              then children_by_face g target_res ch (res + 1) mapped_faces
              else Inr []) = Inr ys" and
    c: "c \<in> set ys"
    unfolding children_by_face_step [OF lt rm cs] by (blast dest: extend_all_elem)
  from ys c obtain M where
    M: "mapped_child_faces rm (?pos ch) faces = Inr M" "M \<noteq> {}" and
    rec: "children_by_face g target_res ch (res + 1) M = Inr ys"
    by (auto split: sum.splits if_splits)
  have cs': "cell_to_children g current (get_resolution g current + 1) = Some cs"
    using cs Suc.prems(2) by simp
  have chS: "ch \<in> S" and chres: "get_resolution g ch = res + 1"
    and chpar: "cell_to_parent g ch res = current" and chhex: "\<not> is_pentagon g ch"
    using hex_region_child [OF region Suc.prems(1) cs' ch] Suc.prems(2) by simp_all
  have inv: "\<exists>pf \<in> faces. \<exists>s. inverse_entry False ((res + 1) mod 2) (?pos ch) pf = Some s \<and> f \<in> s"
    if "f \<in> M" for f
    using mapped_child_faces_elem [OF rm M(1) that] hex by simp
  have Mfaces: "M \<subseteq> all_faces"
    using inv inverse_entry_faces by blast
  have posn: "?pos ch \<noteq> 0"
    using inv M(2) by (auto simp: inverse_entry_center)
  have le: "res + 1 \<le> target_res" using lt by simp
  have ne: "res + 1 = target_res \<longrightarrow> M \<noteq> {}" using M(2) by simp
  from Suc.hyps(1) [OF n chS chres le ne rec c] obtain G T where
    cres: "get_resolution g c = target_res" and
    cl: "climb g (res + 1) target_res c = ch" and
    G: "G \<noteq> {}" "G \<subseteq> (if res + 1 = target_res then M else all_faces)" and
    T: "trace_loop g (res + 1) target_res c G = Inr T" "T \<noteq> {}" "T \<subseteq> M"
    by blast
  let ?T' = "Option.these (forward_entry False ((res + 1) mod 2) (?pos ch) ` T)"
  have fwd: "\<exists>pf \<in> faces. forward_entry False ((res + 1) mod 2) (?pos ch) f = Some pf"
    if "f \<in> T" for f
    using inv [of f] that T(3) hex_tables_agree [of "(res + 1) mod 2" "?pos ch" f] by blast
  have T'sub: "?T' \<subseteq> faces"
  proof
    fix x assume "x \<in> ?T'"
    then obtain f where f: "f \<in> T"
        "forward_entry False ((res + 1) mod 2) (?pos ch) f = Some x"
      by (auto simp: Option.in_these_eq)
    with fwd [of f] show "x \<in> faces" by auto
  qed
  have T'ne: "?T' \<noteq> {}"
  proof -
    from T(2) obtain f where "f \<in> T" by blast
    with fwd obtain pf where "forward_entry False ((res + 1) mod 2) (?pos ch) f = Some pf"
      by blast
    with \<open>f \<in> T\<close> have "pf \<in> ?T'"
      by (auto simp: Option.in_these_eq intro: rev_image_eqI)
    then show ?thesis by blast
  qed
  have "trace_loop g res target_res c G = trace_loop g res (res + 1) ch T"
    using trace_loop_compose [OF _ _ T(1), of res] lt cl by simp
  also have "\<dots> = Inr ?T'"
    using chhex posn chpar hex T'ne
    by (subst trace_loop_step) (simp add: trace_loop_step [of g res res])
  finally have tr: "trace_loop g res target_res c G = Inr ?T'" .
  have up: "climb g res target_res c = current"
    using climb_last [OF lt, of g c] cl chpar by simp
  have Gall: "G \<subseteq> all_faces"
    using G(2) Mfaces by (auto split: if_splits)
  have "\<exists>G T. G \<noteq> {} \<and> G \<subseteq> (if res = target_res then faces else all_faces) \<and>
       trace_loop g res target_res c G = Inr T \<and> T \<noteq> {} \<and> T \<subseteq> faces"
    using G(1) Gall tr T'ne T'sub lt
    by (intro exI [of _ G] exI [of _ ?T']) simp
  with cres up show ?case by simp
qed


section \<open>Which errors can come out\<close>



lemma expand_error_cases:
  assumes "child_positions_in_range g"
    and "children_on_boundary_faces g p t F = Inl e"
  shows "e = ValueError \<and> t < get_resolution g p \<or>
         e = H3ResDomainError \<and> get_resolution g p < t"
proof (cases "t < get_resolution g p")
  case True
  with assms(2) show ?thesis by (simp add: children_on_boundary_faces_def)
next
  case False
  with assms(2) have e: "children_by_face g t p (get_resolution g p) F = Inl e"
    by (simp add: children_on_boundary_faces_def)
  from False have le: "get_resolution g p \<le> t" by simp
  from children_by_face_error [OF le e] children_by_face_no_key_error [OF assms(1) le, of p F] e
  show ?thesis by auto
qed




section \<open>The claims\<close>

text \<open>
  C1, forward and inverse tables hold the same pairs. The module calls the inverse table
  of the pentagons the reversed version of the forward one, and the two disagree at child
  position 3, for both parities: at parity 0 the forward table sends child face 5 to parent
  face 2 and the inverse table has no parent face 2, while the inverse table sends parent
  face 4 to child face 1, which the forward table does not map; at parity 1 the forward
  table sends child face 1 to parent face 4, whose inverse entry is \<open>{4, 5}\<close>, and the
  inverse table sends parent face 3 to child face 6, which the forward table does not map.
\<close>
theorem pentagon_position3_tables_disagree:
  "forward_entry True 0 3 5 = Some 2 \<and> inverse_entry True 0 3 2 = None \<and>
   inverse_entry True 0 3 4 = Some {1} \<and> forward_entry True 0 3 1 = None \<and>
   forward_entry True 1 3 1 = Some 4 \<and> inverse_entry True 1 3 4 = Some {4, 5} \<and>
   inverse_entry True 1 3 3 = Some {6} \<and> forward_entry True 1 3 6 = None"
  by (simp add: forward_entry_def inverse_entry_def position_entry_def
      boundary_face_mapping_pent_def reversed_boundary_face_mapping_pent_def)

text \<open>
  C2, as stated: a hexagon of resolution 6 at child position 3 traced one level up with
  faces \<open>{2, 3}\<close> gives \<open>{2}\<close>, and with \<open>{5, 6}\<close> the empty set. On the grid of hexagons it
  gives neither.
\<close>
theorem trace_res6_pos3_counterexample:
  "get_resolution digit_grid [0, 0, 0, 0, 0, 3] = 6 \<and>
   \<not> is_pentagon digit_grid [0, 0, 0, 0, 0, 3] \<and>
   cell_to_child_pos digit_grid [0, 0, 0, 0, 0, 3] 5 = 3 \<and>
   trace_cell_to_ancestor_faces digit_grid [0, 0, 0, 0, 0, 3] {2, 3} (Some 5) \<noteq> Inr {2} \<and>
   trace_cell_to_ancestor_faces digit_grid [0, 0, 0, 0, 0, 3] {5, 6} (Some 5) \<noteq> Inr {}"
  by (simp add: digit_eval)

text \<open>
  C2, amended: the table is chosen by the parity of the resolution of the cell itself, not
  of its parent. A cell that is no pentagon, at child position 3 of a hexagonal parent,
  traced one level up, gives \<open>{3}\<close> for \<open>{2, 3}\<close> and \<open>{2}\<close> for \<open>{5, 6}\<close> when its own
  resolution is even (as 6 is), and \<open>{2}\<close> for \<open>{2, 3}\<close> and the empty set for \<open>{5, 6}\<close> when
  its own resolution is odd.
\<close>
theorem trace_position3_by_own_parity:
  assumes "0 < get_resolution g c" "\<not> is_pentagon g c"
    and "cell_to_child_pos g c (get_resolution g c - 1) = 3"
    and "\<not> is_pentagon g (cell_to_parent g c (get_resolution g c - 1))"
  shows "(get_resolution g c mod 2 = 0 \<longrightarrow>
            trace_cell_to_ancestor_faces g c {2, 3} (Some (get_resolution g c - 1)) = Inr {3} \<and>
            trace_cell_to_ancestor_faces g c {5, 6} (Some (get_resolution g c - 1)) = Inr {2}) \<and>
         (get_resolution g c mod 2 = 1 \<longrightarrow>
            trace_cell_to_ancestor_faces g c {2, 3} (Some (get_resolution g c - 1)) = Inr {2} \<and>
            trace_cell_to_ancestor_faces g c {5, 6} (Some (get_resolution g c - 1)) = Inr {})"
  using assms
  by (simp add: trace_ancestor_valid trace_loop_step [of g "get_resolution g c - 1"]
      forward_entry_def position_entry_def boundary_face_mapping_hex_def)

theorem trace_position3_by_own_parity_witness:
  "0 < get_resolution digit_grid [0, 0, 0, 0, 0, 3] \<and>
   \<not> is_pentagon digit_grid [0, 0, 0, 0, 0, 3] \<and>
   cell_to_child_pos digit_grid [0, 0, 0, 0, 0, 3]
     (get_resolution digit_grid [0, 0, 0, 0, 0, 3] - 1) = 3 \<and>
   \<not> is_pentagon digit_grid (cell_to_parent digit_grid [0, 0, 0, 0, 0, 3]
     (get_resolution digit_grid [0, 0, 0, 0, 0, 3] - 1)) \<and>
   get_resolution digit_grid [0, 0, 0, 0, 0, 3] mod 2 = 0 \<and>
   trace_cell_to_ancestor_faces digit_grid [0, 0, 0, 0, 0, 3] {2, 3} (Some 5) = Inr {3} \<and>
   trace_cell_to_ancestor_faces digit_grid [0, 0, 0, 0, 0, 3] {5, 6} (Some 5) = Inr {2}"
proof -
  have a: "0 < get_resolution digit_grid [0, 0, 0, 0, 0, 3]"
    and b: "\<not> is_pentagon digit_grid [0, 0, 0, 0, 0, 3]"
    and c: "cell_to_child_pos digit_grid [0, 0, 0, 0, 0, 3]
       (get_resolution digit_grid [0, 0, 0, 0, 0, 3] - 1) = 3"
    and d: "\<not> is_pentagon digit_grid (cell_to_parent digit_grid [0, 0, 0, 0, 0, 3]
       (get_resolution digit_grid [0, 0, 0, 0, 0, 3] - 1))"
    and e: "get_resolution digit_grid [0, 0, 0, 0, 0, 3] = 6"
    by (simp_all add: digit_grid_def)
  from trace_position3_by_own_parity [OF a b c d] a b c d e show ?thesis by simp
qed

text \<open>
  C3, as stated: tracing a cell to its own resolution returns the faces unchanged. It does
  not return them.
\<close>
theorem trace_zero_levels_counterexample:
  "trace_cell_to_ancestor_faces digit_grid [1] {1} (Some (get_resolution digit_grid [1])) \<noteq> Inr {1}"
  by (simp add: trace_cell_to_ancestor_faces_def)

text \<open>
  C3, amended: tracing a cell to its own resolution raises \<open>ValueError\<close>, whatever the
  faces; only the loop inside, which the function does not reach then, would leave the
  faces unchanged over zero levels.
\<close>
theorem trace_zero_levels_rejected:
  "trace_cell_to_ancestor_faces g c F (Some (get_resolution g c)) = Inl ValueError \<and>
   trace_loop g (get_resolution g c) (get_resolution g c) c F = Inr F"
  by (simp add: trace_cell_to_ancestor_faces_def trace_loop_step)

text \<open>
  C8, as stated: child position 0 is a key of no table. It is a key of the forward and of
  the inverse table of the hexagons.
\<close>
theorem center_position_is_key:
  "position_entry boundary_face_mapping_hex 0 0 \<noteq> None \<and>
   position_entry reversed_boundary_face_mapping_hex 0 0 \<noteq> None"
  by (simp add: position_entry_def boundary_face_mapping_hex_def
      reversed_boundary_face_mapping_hex_def)

text \<open>
  C8, amended: child position 0 is a key of each of the four tables at both parities, and
  its entry is the empty mapping, so that no table holds a pair of faces for the centre
  child.
\<close>
theorem center_position_maps_nothing:
  "position_entry boundary_face_mapping_hex 0 0 = Some [] \<and>
   position_entry boundary_face_mapping_hex 1 0 = Some [] \<and>
   position_entry boundary_face_mapping_pent 0 0 = Some [] \<and>
   position_entry boundary_face_mapping_pent 1 0 = Some [] \<and>
   position_entry reversed_boundary_face_mapping_hex 0 0 = Some [] \<and>
   position_entry reversed_boundary_face_mapping_hex 1 0 = Some [] \<and>
   position_entry reversed_boundary_face_mapping_pent 0 0 = Some [] \<and>
   position_entry reversed_boundary_face_mapping_pent 1 0 = Some [] \<and>
   forward_entry pent parity 0 child_face = None \<and>
   inverse_entry pent parity 0 parent_face = None"
proof -
  have "forward_entry pent parity 0 child_face = None"
    unfolding forward_entry_def position_entry_def boundary_face_mapping_hex_def
      boundary_face_mapping_pent_def
    by (auto split: if_splits)
  then show ?thesis
    by (simp add: inverse_entry_center position_entry_def boundary_face_mapping_hex_def
      boundary_face_mapping_pent_def reversed_boundary_face_mapping_hex_def
      reversed_boundary_face_mapping_pent_def)
qed

text \<open>
  C9: expanding a cell to its own resolution returns the list of that cell alone, for
  every set of faces and for the empty set too.
\<close>
theorem expand_same_resolution:
  "children_on_boundary_faces g p (get_resolution g p) F = Inr [p] \<and>
   children_on_boundary_faces g p (get_resolution g p) {} = Inr [p]"
  by (simp add: children_on_boundary_faces_def children_by_face.simps)




text \<open>
  C6: for targets \<open>0 \<le> t2 < t1\<close> below the resolution of the cell, on a grid whose parents
  compose, the trace to \<open>t2\<close> is the trace from the ancestor at \<open>t1\<close>, onwards, of the faces
  that reached \<open>t1\<close>; so if none reached \<open>t1\<close>, none reaches \<open>t2\<close>.
\<close>
theorem trace_composes:
  assumes "hierarchy g" "0 \<le> t2" "t2 < t1" "t1 < get_resolution g c"
  shows "\<exists>G. trace_cell_to_ancestor_faces g c F (Some t1) = Inr G \<and>
           trace_cell_to_ancestor_faces g c F (Some t2) =
             trace_cell_to_ancestor_faces g (cell_to_parent g c t1) G (Some t2) \<and>
           (G = {} \<longrightarrow> trace_cell_to_ancestor_faces g c F (Some t2) = Inr {})"
proof -
  obtain G where G: "trace_cell_to_ancestor_faces g c F (Some t1) = Inr G"
    using trace_loop_total [of g t1 "get_resolution g c" c F] assms(2-4)
    by (auto simp: trace_ancestor_valid)
  have r: "get_resolution g (cell_to_parent g c t1) = t1"
    using assms by (simp add: hierarchy_def)
  have eq: "trace_cell_to_ancestor_faces g c F (Some t2) =
             trace_cell_to_ancestor_faces g (cell_to_parent g c t1) G (Some t2)"
    using trace_via_ancestor [OF assms G] .
  have "trace_cell_to_ancestor_faces g (cell_to_parent g c t1) {} (Some t2) = Inr {}"
    using r assms(2,3) by (simp add: trace_cell_to_ancestor_faces_def)
  with G eq show ?thesis by auto
qed

theorem trace_composes_witness:
  "hierarchy digit_grid \<and> (0::int) \<le> 0 \<and> (0::int) < 1 \<and> 1 < get_resolution digit_grid [1, 5, 0] \<and>
   trace_cell_to_ancestor_faces digit_grid [1, 5, 0] {1, 2} (Some 0) =
     trace_cell_to_ancestor_faces digit_grid (cell_to_parent digit_grid [1, 5, 0] 1) {}
       (Some 0) \<and>
   trace_cell_to_ancestor_faces digit_grid [1, 5, 0] {1, 2} (Some 0) = Inr {}"
proof -
  have r: "1 < get_resolution digit_grid [1, 5, 0]" by (simp add: digit_grid_def)
  have t1: "trace_cell_to_ancestor_faces digit_grid [1, 5, 0] {1, 2} (Some 1) = Inr {}"
    by (simp add: digit_eval)
  from trace_composes [OF hierarchy_digit_grid _ _ r, of 0 "{1, 2}"] t1 r
  show ?thesis by (auto simp: hierarchy_digit_grid)
qed

text \<open>
  C7: on a grid whose parents compose, the coarsest ancestor \<open>a\<close> of a cell \<open>c\<close> exists and is
  a fixed point: searching again from \<open>a\<close> returns \<open>a\<close>, with the faces \<open>F\<close> themselves when
  \<open>a\<close> is \<open>c\<close>, and otherwise with the faces that the trace of \<open>c\<close> carries to the
  resolution of \<open>a\<close>.
\<close>
theorem coarsest_ancestor_fixed_point:
  assumes "hierarchy g"
  shows "\<exists>a. cell_to_coarsest_ancestor_on_faces g c F = Inr a \<and>
           (a = c \<longrightarrow> cell_to_coarsest_ancestor_on_faces g a F = Inr a) \<and>
           (a \<noteq> c \<longrightarrow>
              (\<exists>G. trace_cell_to_ancestor_faces g c F (Some (get_resolution g a)) = Inr G \<and>
                    cell_to_coarsest_ancestor_on_faces g a G = Inr a))"
  using coarsest_loop_fixed [OF assms, of c "get_resolution g c" F]
  by (auto simp: cell_to_coarsest_ancestor_on_faces_def)

theorem coarsest_ancestor_fixed_point_witness:
  "hierarchy digit_grid \<and>
   cell_to_coarsest_ancestor_on_faces digit_grid [1, 5, 1, 2] {1, 2, 3} = Inr [1, 5, 1] \<and>
   (\<exists>G. trace_cell_to_ancestor_faces digit_grid [1, 5, 1, 2] {1, 2, 3}
           (Some (get_resolution digit_grid [1, 5, 1])) = Inr G \<and>
         cell_to_coarsest_ancestor_on_faces digit_grid [1, 5, 1] G = Inr [1, 5, 1])"
proof -
  have a: "cell_to_coarsest_ancestor_on_faces digit_grid [1, 5, 1, 2] {1, 2, 3} = Inr [1, 5, 1]"
    by (simp add: digit_eval)
  from coarsest_ancestor_fixed_point [OF hierarchy_digit_grid, of "[1, 5, 1, 2]" "{1, 2, 3}"] a
  show ?thesis by (auto simp: hierarchy_digit_grid)
qed

text \<open>
  C10: for both shapes, both parities and every child position from 0 to 6 the inverse
  table has an entry, and on a grid whose child positions are 0 to 6 the expansion never
  raises \<open>KeyError\<close>.
\<close>
theorem inverse_lookups_never_fail:
  assumes "child_positions_in_range g"
  shows "((parity = 0 \<or> parity = 1) \<and> 0 \<le> pos \<and> pos \<le> 6 \<longrightarrow>
            position_entry (if pent then reversed_boundary_face_mapping_pent
                            else reversed_boundary_face_mapping_hex) parity pos \<noteq> None) \<and>
         children_on_boundary_faces g p t F \<noteq> Inl KeyError"
  using expand_error_cases [OF assms, of p t F KeyError]
    inverse_position_total [of parity pos pent]
  by auto

theorem inverse_lookups_never_fail_witness:
  "child_positions_in_range digit_grid \<and>
   position_entry reversed_boundary_face_mapping_pent 1 6 \<noteq> None \<and>
   children_on_boundary_faces digit_grid [] 2 {1} \<noteq> Inl KeyError"
  using inverse_lookups_never_fail [OF child_positions_digit_grid, of 1 6 True "[]" 2 "{1}"]
  by (simp add: child_positions_digit_grid)

text \<open>
  C5, as stated: every cell that the expansion of \<open>p\<close> with faces \<open>F\<close> returns, traced back
  to the resolution of \<open>p\<close>, gives a non-empty subset of \<open>F\<close>. On the grid of hexagons the
  expansion of the base cell by one level with \<open>F = {1}\<close> returns its child at position 1,
  a corner child: traced back with the default faces it gives \<open>{3, 1}\<close>, and traced back
  with \<open>F\<close> itself it gives \<open>{3}\<close>. Neither is a subset of \<open>{1}\<close>.
\<close>
theorem expand_then_trace_counterexample:
  "children_on_boundary_faces digit_grid [] (get_resolution digit_grid [] + 1) {1} = Inr [[1], [5]] \<and>
   trace_cell_to_ancestor_faces digit_grid [1] all_faces (Some (get_resolution digit_grid [])) = Inr {3, 1} \<and>
   \<not> {3, 1} \<subseteq> {1::int} \<and>
   trace_cell_to_ancestor_faces digit_grid [1] {1} (Some (get_resolution digit_grid [])) = Inr {3} \<and>
   \<not> {3} \<subseteq> {1::int}"
  by (simp add: digit_eval)

text \<open>
  C5, amended: in a region of hexagons closed under children, every cell that the
  expansion of \<open>p\<close> by \<open>k \<ge> 1\<close> levels with faces \<open>F\<close> returns, traced back to the resolution
  of \<open>p\<close> with the default faces, gives a set that has a face in common with \<open>F\<close>; and some
  non-empty set of its own faces traces back to a non-empty subset of \<open>F\<close>.
\<close>
theorem expand_then_trace_meets_faces:
  assumes "hex_region g S" "p \<in> S" "0 \<le> get_resolution g p" "1 \<le> k"
    and "children_on_boundary_faces g p (get_resolution g p + k) F = Inr xs" "c \<in> set xs"
  shows "\<exists>T. trace_cell_to_ancestor_faces g c all_faces (Some (get_resolution g p)) = Inr T \<and>
           T \<inter> F \<noteq> {} \<and>
           (\<exists>G T'. G \<noteq> {} \<and> G \<subseteq> all_faces \<and>
              trace_cell_to_ancestor_faces g c G (Some (get_resolution g p)) = Inr T' \<and>
              T' \<noteq> {} \<and> T' \<subseteq> F \<and> T' \<subseteq> T)"
proof -
  let ?R = "get_resolution g p"
  have lt: "?R < ?R + k" using assms(4) by simp
  have cbf: "children_by_face g (?R + k) p ?R F = Inr xs"
    using assms(5) lt by (simp add: children_on_boundary_faces_def Let_def)
  have "?R = ?R + k \<longrightarrow> F \<noteq> {}" using lt by simp
  from expand_traces_back [OF assms(1,2) refl _ this cbf assms(6)] lt
  obtain G T' where cres: "get_resolution g c = ?R + k"
    and G: "G \<noteq> {}" "G \<subseteq> all_faces"
    and T': "trace_loop g ?R (?R + k) c G = Inr T'" "T' \<noteq> {}" "T' \<subseteq> F"
    by auto
  obtain T where T: "trace_loop g ?R (?R + k) c all_faces = Inr T"
    using trace_loop_total [of g ?R "?R + k" c all_faces] by blast
  have sub: "T' \<subseteq> T"
    using trace_loop_mono [OF G(2) T'(1) T] .
  have valid: "0 \<le> ?R" "?R < get_resolution g c"
    using assms(3) cres lt by simp_all
  have a: "trace_cell_to_ancestor_faces g c all_faces (Some ?R) = Inr T"
    using T cres by (simp add: trace_ancestor_valid [OF valid])
  have b: "trace_cell_to_ancestor_faces g c G (Some ?R) = Inr T'"
    using T' cres by (simp add: trace_ancestor_valid [OF valid])
  have "T \<inter> F \<noteq> {}" using T'(2,3) sub by blast
  with a b G T' sub show ?thesis by blast
qed

theorem expand_then_trace_meets_faces_witness:
  "hex_region digit_grid UNIV \<and> [] \<in> (UNIV :: int list set) \<and>
   0 \<le> get_resolution digit_grid [] \<and> (1::int) \<le> 2 \<and>
   children_on_boundary_faces digit_grid [] (get_resolution digit_grid [] + 2) {1} =
     Inr [[1, 4], [1, 5], [5, 1], [5, 4], [5, 5]] \<and>
   [1, 5] \<in> set [[1, 4], [1, 5], [5, 1], [5, 4], [5, 5 :: int]] \<and>
   (\<exists>T. trace_cell_to_ancestor_faces digit_grid [1, 5] all_faces
           (Some (get_resolution digit_grid [])) = Inr T \<and> T \<inter> {1} \<noteq> {})"
proof -
  have r: "0 \<le> get_resolution digit_grid []" by (simp add: digit_grid_def)
  have e: "children_on_boundary_faces digit_grid [] (get_resolution digit_grid [] + 2) {1} =
     Inr [[1, 4], [1, 5], [5, 1], [5, 4], [5, 5]]"
    by (simp add: digit_eval)
  have m: "[1, 5] \<in> set [[1, 4], [1, 5], [5, 1], [5, 4], [5, 5 :: int]]" by simp
  from expand_then_trace_meets_faces [OF hex_region_digit_grid UNIV_I r _ e m]
  show ?thesis using r e hex_region_digit_grid by auto
qed

end
